theory Spec2Isabelle
  imports Main
begin

section \<open>Data model (src/interfaces.ts)\<close>

text \<open>
  The two interfaces of the repository. A JavaScript \<open>number\<close> holding a line number or a
  line count is a natural number here: \<open>Number\<close> is only ever applied to a run of decimal
  digits, and the model reads that run exactly (the double of the source agrees with it
  below \<open>2^53\<close>).
\<close>

record FileChange =
  name :: string
  start_line :: nat
  line_count :: nat
  content :: string

record Change =
  fromFile :: "FileChange option"
  toFile :: "FileChange option"

text \<open>
  \<open>getChanges\<close> returns a \<open>Set<Change>\<close>. Every element is an object literal created by
  the \<open>changes.add\<close> call that inserts it, and a JavaScript \<open>Set\<close> compares objects by
  reference, so the set holds one entry per \<open>add\<close>, in insertion order: a list. The
  messages written with \<open>console.error\<close> are the diagnostics of a run; they are kept in
  order beside the collection. A \<open>TypeError\<close> thrown by a method call on \<open>undefined\<close>
  leaves \<open>getChanges\<close> without a value.
\<close>

datatype exn = TypeError

record result =
  changes :: "Change list"
  errors :: "string list"

section \<open>String operations of the JavaScript library\<close>

abbreviation NL :: char where
  "NL \<equiv> CHR 0x0A"

text \<open>\<open>s.startsWith(p)\<close>\<close>

fun startsWith :: "string \<Rightarrow> string \<Rightarrow> bool" where
  "startsWith s [] = True"
| "startsWith [] (p # ps) = False"
| "startsWith (c # cs) (p # ps) = (c = p \<and> startsWith cs ps)"

text \<open>
  \<open>s.split(sep)\<close> for a non-empty separator string \<open>sep\<close>: the pieces between the
  occurrences of \<open>sep\<close>, found from left to right. \<open>acc\<close> holds the piece being read,
  reversed.
\<close>

fun split_from :: "string \<Rightarrow> string \<Rightarrow> string \<Rightarrow> string list" where
  "split_from sep acc [] = [rev acc]"
| "split_from sep acc (c # cs) =
     (if startsWith (c # cs) sep
      then rev acc # split_from sep [] (drop (length sep - 1) cs)
      else split_from sep (c # acc) cs)"

definition split_str :: "string \<Rightarrow> string \<Rightarrow> string list" where
  "split_str sep s = split_from sep [] s"

text \<open>\<open>xs.filter((n) => n)\<close> on an array of strings: the empty string is the only falsy one.\<close>

definition truthy :: "string list \<Rightarrow> string list" where
  "truthy xs = filter (\<lambda>n. n \<noteq> []) xs"

text \<open>\<open>xs.join("\n")\<close>\<close>

fun join :: "string list \<Rightarrow> string" where
  "join [] = []"
| "join [l] = l"
| "join (l # m # ls) = l @ NL # join (m # ls)"

text \<open>\<open>xs.shift()\<close>: the first element, or \<open>undefined\<close>, and the array that is left.\<close>

fun shift :: "'a list \<Rightarrow> 'a option \<times> 'a list" where
  "shift [] = (None, [])"
| "shift (x # xs) = (Some x, xs)"

text \<open>\<open>s.replace(pat, "")\<close> for a string pattern: the first occurrence of \<open>pat\<close> is removed.\<close>

fun remove_first :: "string \<Rightarrow> string \<Rightarrow> string" where
  "remove_first pat [] = []"
| "remove_first pat (c # cs) =
     (if startsWith (c # cs) pat then drop (length pat - 1) cs
      else c # remove_first pat cs)"

text \<open>
  \<open>line.replace(/- ?/, "")\<close> and \<open>line.replace(/\+ ?/, "")\<close>: the first occurrence of the
  marker character is removed, together with one space when a space follows it.
\<close>

fun remove_marker :: "char \<Rightarrow> string \<Rightarrow> string" where
  "remove_marker m [] = []"
| "remove_marker m (c # cs) =
     (if c = m then (case cs of [] \<Rightarrow> [] | d # ds \<Rightarrow> if d = CHR '' '' then ds else d # ds)
      else c # remove_marker m cs)"

text \<open>
  \<open>line.replace(/ ? ?/, "")\<close>: the pattern matches at the start of every string (both
  spaces are optional and greedy), so up to two leading spaces are removed.
\<close>

fun remove_spaces :: "string \<Rightarrow> string" where
  "remove_spaces [] = []"
| "remove_spaces (c # cs) =
     (if c = CHR '' ''
      then (case cs of [] \<Rightarrow> [] | d # ds \<Rightarrow> if d = CHR '' '' then ds else d # ds)
      else c # cs)"

section \<open>The two regular expressions\<close>

text \<open>\<open>\d\<close> is an ASCII decimal digit; \<open>Number\<close> of a run of digits is its decimal value.\<close>

definition is_digit :: "char \<Rightarrow> bool" where
  "is_digit c = (c \<in> set ''0123456789'')"

definition digit_val :: "char \<Rightarrow> nat" where
  "digit_val c = of_char c - 48"

definition Number :: "string \<Rightarrow> nat" where
  "Number ds = foldl (\<lambda>n c. 10 * n + digit_val c) 0 ds"

text \<open>
  The matchers below read a pattern at the start of a string and return what is left
  after the match. Each greedy choice is the only one that can succeed: after a run of
  digits the pattern goes on with \<open>,\<close> or a space, which no digit is, and after an optional
  \<open>,\<close>\<open>\d+\<close> group it goes on with a space, which \<open>,\<close> is not. So no backtracking is lost.
\<close>

text \<open>A literal.\<close>

definition lit :: "string \<Rightarrow> string \<Rightarrow> string option" where
  "lit p s = (if startsWith s p then Some (drop (length p) s) else None)"

text \<open>\<open>(\d+)\<close>\<close>

definition digits1 :: "string \<Rightarrow> (string \<times> string) option" where
  "digits1 s =
     (if takeWhile is_digit s = [] then None
      else Some (takeWhile is_digit s, dropWhile is_digit s))"

text \<open>\<open>(?:,(\d+))?\<close>: the group is \<open>undefined\<close> when the optional part does not match.\<close>

definition opt_count :: "string \<Rightarrow> string option \<times> string" where
  "opt_count s =
     (case lit '','' s of
        None \<Rightarrow> (None, s)
      | Some r \<Rightarrow> (case digits1 r of None \<Rightarrow> (None, s) | Some (ds, r') \<Rightarrow> (Some ds, r')))"

text \<open>
  \<open>locationRegExp = /-(\d+)(?:,(\d+))? \+(\d+)(?:,(\d+))?/\<close> read at the start of a
  string: the four groups and the rest of the string.
\<close>

record location =
  g1 :: string
  g2 :: "string option"
  g3 :: string
  g4 :: "string option"

definition location_at :: "string \<Rightarrow> (location \<times> string) option" where
  "location_at s =
     (case lit ''-'' s of None \<Rightarrow> None | Some r1 \<Rightarrow>
      (case digits1 r1 of None \<Rightarrow> None | Some (d1, r2) \<Rightarrow>
       (case opt_count r2 of (c1, r3) \<Rightarrow>
        (case lit '' +'' r3 of None \<Rightarrow> None | Some r4 \<Rightarrow>
         (case digits1 r4 of None \<Rightarrow> None | Some (d3, r5) \<Rightarrow>
          (case opt_count r5 of (c2, r6) \<Rightarrow>
             Some (\<lparr>g1 = d1, g2 = c1, g3 = d3, g4 = c2\<rparr>, r6)))))))"

text \<open>\<open>s.match(locationRegExp)\<close>: the leftmost match, or \<open>null\<close>.\<close>

fun match_location :: "string \<Rightarrow> location option" where
  "match_location [] = None"
| "match_location (c # cs) =
     (case location_at (c # cs) of
        Some (m, r) \<Rightarrow> Some m
      | None \<Rightarrow> match_location cs)"

text \<open>
  The separator \<open>/@@ (-\d+(?:,\d+)? \+\d+(?:,\d+)?) @@/\<close> read at the start of a string:
  the text of its capture group and the length of the whole match.
\<close>

definition separator_at :: "string \<Rightarrow> (string \<times> nat) option" where
  "separator_at s =
     (case lit ''@@ '' s of None \<Rightarrow> None | Some r0 \<Rightarrow>
      (case location_at r0 of None \<Rightarrow> None | Some (m, r1) \<Rightarrow>
       (case lit '' @@'' r1 of None \<Rightarrow> None | Some r2 \<Rightarrow>
          Some (take (length r0 - length r1) r0, length s - length r2))))"

text \<open>
  \<open>s.split(/@@ (...) @@/)\<close>: the pieces between the matches of the separator, each
  match contributing the text of its capture group to the array.
\<close>

fun split_chunks_from :: "string \<Rightarrow> string \<Rightarrow> string list" where
  "split_chunks_from acc [] = [rev acc]"
| "split_chunks_from acc (c # cs) =
     (case separator_at (c # cs) of
        Some (cap, n) \<Rightarrow> rev acc # cap # split_chunks_from [] (drop (n - 1) cs)
      | None \<Rightarrow> split_chunks_from (c # acc) cs)"

definition split_chunks :: "string \<Rightarrow> string list" where
  "split_chunks s = split_chunks_from [] s"

section \<open>getChanges (src/index.ts), from the diff text on\<close>

text \<open>
  Lines 16 to 50 of \<open>getChanges\<close> run \<open>git add\<close> and \<open>git diff\<close> and bind the output of
  the latter to \<open>diffOut\<close>; the model starts there, with \<open>diffOut\<close> as its argument.
\<close>

text \<open>\<open>Number(locationMatch[k]) || 1\<close>: \<open>NaN\<close> (group undefined) and \<open>0\<close> are falsy.\<close>

definition count_or_1 :: "string option \<Rightarrow> nat" where
  "count_or_1 g =
     (case g of None \<Rightarrow> 1 | Some ds \<Rightarrow> if Number ds = 0 then 1 else Number ds)"

text \<open>The \<open>while (changedLines.length > 0)\<close> loop (lines 136 to 168).\<close>

fun lines_loop ::
  "string list \<Rightarrow> FileChange option \<Rightarrow> FileChange option \<Rightarrow> string list
    \<Rightarrow> FileChange option \<times> FileChange option \<times> string list" where
  "lines_loop [] ff tf errs = (ff, tf, errs)"
| "lines_loop (line # rest) ff tf errs =
     (if startsWith line ''-'' then
        (case ff of
           None \<Rightarrow> lines_loop rest ff tf (errs @ [''Error: fromFile is undefined''])
         | Some f \<Rightarrow>
             lines_loop rest
               (Some (f\<lparr>content := content f @ remove_marker (CHR ''-'') line @ [NL]\<rparr>)) tf errs)
      else if startsWith line ''+'' then
        (case tf of
           None \<Rightarrow> lines_loop rest ff tf (errs @ [''Error: toFile is undefined''])
         | Some t \<Rightarrow>
             lines_loop rest ff
               (Some (t\<lparr>content := content t @ remove_marker (CHR ''+'') line @ [NL]\<rparr>)) errs)
      else
        (case ff of
           None \<Rightarrow> lines_loop rest ff tf (errs @ [''Error: fromFile is undefined''])
         | Some f \<Rightarrow>
            (case tf of
               None \<Rightarrow> lines_loop rest ff tf (errs @ [''Error: toFile is undefined''])
             | Some t \<Rightarrow>
                 lines_loop rest
                   (Some (f\<lparr>content := content f @ remove_spaces line @ [NL]\<rparr>))
                   (Some (t\<lparr>content := content t @ remove_spaces line @ [NL]\<rparr>)) errs)))"

text \<open>What the loop over the chunks of one file reads from the enclosing scope.\<close>

record file_scope =
  fromFileName :: string
  toFileName :: string
  isAddedFile :: bool
  isDeletedFile :: bool

text \<open>Lines 115 to 132: the two fragments of a hunk, before its body is read.\<close>

definition new_fromFile :: "file_scope \<Rightarrow> location \<Rightarrow> FileChange option" where
  "new_fromFile fs m =
     (if \<not> isAddedFile fs
      then Some \<lparr>name = fromFileName fs, start_line = Number (g1 m),
                 line_count = count_or_1 (g2 m), content = []\<rparr>
      else None)"

definition new_toFile :: "file_scope \<Rightarrow> location \<Rightarrow> FileChange option" where
  "new_toFile fs m =
     (if \<not> isDeletedFile fs
      then Some \<lparr>name = toFileName fs, start_line = Number (g3 m),
                 line_count = count_or_1 (g4 m), content = []\<rparr>
      else None)"

text \<open>
  Lines 134 to 173: the body of a hunk is split into lines and read, and the record is
  added to the collection. \<open>read_hunk\<close> gives the record and the error messages
  after it.
\<close>

definition read_hunk ::
  "file_scope \<Rightarrow> location \<Rightarrow> string \<Rightarrow> string list \<Rightarrow> Change \<times> string list" where
  "read_hunk fs m body errs =
     (case lines_loop (split_str [NL] body) (new_fromFile fs m) (new_toFile fs m) errs of
        (ff, tf, errs') \<Rightarrow> (\<lparr>fromFile = ff, toFile = tf\<rparr>, errs'))"

definition add_change :: "file_scope \<Rightarrow> location \<Rightarrow> string \<Rightarrow> result \<Rightarrow> result" where
  "add_change fs m body st =
     (case read_hunk fs m body (errors st) of
        (c, errs) \<Rightarrow> \<lparr>changes = changes st @ [c], errors = errs\<rparr>)"

text \<open>
  The \<open>for (let i = 0; i < diffChunks.length; i += 2)\<close> loop (lines 104 to 174). The
  location is matched against \<open>diffChunks[0]\<close> in every round, as in the source, and
  \<open>diffChunks[i + 1]\<close> is \<open>undefined\<close> past the end of the array, where \<open>.split\<close> throws.
\<close>

function chunks_loop ::
  "string list \<Rightarrow> nat \<Rightarrow> file_scope \<Rightarrow> result \<Rightarrow> exn + result" where
  "chunks_loop diffChunks i fs st =
     (if i < length diffChunks then
        (case match_location (diffChunks ! 0) of
           None \<Rightarrow>
             chunks_loop diffChunks (i + 2) fs
               (st\<lparr>errors := errors st @ [''Error parsing location information'']\<rparr>)
         | Some m \<Rightarrow>
             if i + 1 < length diffChunks
             then chunks_loop diffChunks (i + 2) fs (add_change fs m (diffChunks ! (i + 1)) st)
             else Inl TypeError)
      else Inr st)"
  by pat_completeness auto
termination
  by (relation "measure (\<lambda>(diffChunks, i, fs, st). length diffChunks - i)") auto

declare chunks_loop.simps [simp del]

text \<open>
  The \<open>while (!lines[0].startsWith("---"))\<close> loop (lines 69 to 71): when the lines run
  out, \<open>lines[0]\<close> is \<open>undefined\<close> and the call of \<open>startsWith\<close> throws.
\<close>

fun skip_header :: "string list \<Rightarrow> exn + string list" where
  "skip_header [] = Inl TypeError"
| "skip_header (l # ls) = (if startsWith l ''---'' then Inr (l # ls) else skip_header ls)"

text \<open>Lines 83 to 93: the classification of the file.\<close>

definition classify :: "string \<Rightarrow> string \<Rightarrow> file_scope" where
  "classify fromName toName =
     (if fromName = ''/dev/null''
      then \<lparr>fromFileName = fromName, toFileName = toName,
             isAddedFile = True, isDeletedFile = False\<rparr>
      else if toName = ''/dev/null''
      then \<lparr>fromFileName = fromName, toFileName = toName,
             isAddedFile = False, isDeletedFile = True\<rparr>
      else \<lparr>fromFileName = fromName, toFileName = toName,
             isAddedFile = False, isDeletedFile = False\<rparr>)"

text \<open>
  Lines 77 and 78: the two names are read from the first two lines that are left; a name
  is \<open>undefined\<close> when its line is not there.
\<close>

definition read_names :: "string list \<Rightarrow> string option \<times> string option \<times> string list" where
  "read_names lines0 =
     (case shift lines0 of (l1, lines1) \<Rightarrow>
      (case shift lines1 of (l2, lines2) \<Rightarrow>
         (map_option (remove_first ''--- a/'') l1,
          map_option (remove_first ''+++ b/'') l2, lines2)))"

text \<open>The body of the \<open>for (const fileDiff of changedFiles)\<close> loop (lines 62 to 174).\<close>

definition file_body :: "string \<Rightarrow> result \<Rightarrow> exn + result" where
  "file_body fileDiff st =
     (case skip_header (truthy (split_str [NL] fileDiff)) of
        Inl e \<Rightarrow> Inl e
      | Inr lines0 \<Rightarrow>
         (case read_names lines0 of
            (Some fromName, Some toName, lines2) \<Rightarrow>
              chunks_loop (truthy (split_chunks (join lines2))) 0
                (classify fromName toName) st
          | _ \<Rightarrow> Inr (st\<lparr>errors := errors st @ [''Error parsing file names'']\<rparr>)))"

fun files_loop :: "string list \<Rightarrow> result \<Rightarrow> exn + result" where
  "files_loop [] st = Inr st"
| "files_loop (fileDiff # rest) st =
     (case file_body fileDiff st of
        Inl e \<Rightarrow> Inl e
      | Inr st' \<Rightarrow> files_loop rest st')"

definition getChanges :: "string \<Rightarrow> exn + result" where
  "getChanges diffOut =
     (if diffOut = [] then Inr \<lparr>changes = [], errors = []\<rparr>
      else files_loop (truthy (split_str ''diff --git'' diffOut)) \<lparr>changes = [], errors = []\<rparr>)"

text \<open>A diff text written line by line, each line ended by a newline.\<close>

definition text_of :: "string list \<Rightarrow> string" where
  "text_of ls = concat (map (\<lambda>l. l @ [NL]) ls)"

section \<open>Diff texts in the format of \<open>git diff\<close>\<close>





















section \<open>Lemmas about the loops\<close>

text \<open>
  The loop over the lines of a hunk changes nothing but the \<open>content\<close> of the two
  fragments; a fragment that is absent stays absent.
\<close>

lemma lines_loop_content:
  "lines_loop ls ff tf errs = (ff', tf', errs') \<Longrightarrow>
     map_option (\<lambda>f. f\<lparr>content := []\<rparr>) ff' = map_option (\<lambda>f. f\<lparr>content := []\<rparr>) ff \<and>
     map_option (\<lambda>f. f\<lparr>content := []\<rparr>) tf' = map_option (\<lambda>f. f\<lparr>content := []\<rparr>) tf"
  by (induction ls ff tf errs rule: lines_loop.induct) (auto split: if_splits option.splits)




lemma read_hunk_fragments:
  assumes "read_hunk fs m body errs = (c, errs')"
  shows "map_option (\<lambda>f. f\<lparr>content := []\<rparr>) (fromFile c) = new_fromFile fs m"
    and "map_option (\<lambda>f. f\<lparr>content := []\<rparr>) (toFile c) = new_toFile fs m"
proof -
  obtain ff tf where l: "lines_loop (split_str [NL] body) (new_fromFile fs m) (new_toFile fs m) errs
      = (ff, tf, errs')" and c: "c = \<lparr>fromFile = ff, toFile = tf\<rparr>"
    using assms by (auto simp: read_hunk_def split: prod.splits)
  have n: "map_option (\<lambda>f. f\<lparr>content := []\<rparr>) (new_fromFile fs m) = new_fromFile fs m"
       "map_option (\<lambda>f. f\<lparr>content := []\<rparr>) (new_toFile fs m) = new_toFile fs m"
    by (simp_all add: new_fromFile_def new_toFile_def)
  from lines_loop_content [OF l] c n
  show "map_option (\<lambda>f. f\<lparr>content := []\<rparr>) (fromFile c) = new_fromFile fs m"
    and "map_option (\<lambda>f. f\<lparr>content := []\<rparr>) (toFile c) = new_toFile fs m"
    by simp_all
qed

lemma add_change_changes:
  "changes (add_change fs m body st) = changes st @ [fst (read_hunk fs m body (errors st))]"
  by (simp add: add_change_def split: prod.splits)

lemma chunks_loop_appends:
  assumes "chunks_loop cs i fs st = Inr r"
    and "\<And>m body errs. Q (fst (read_hunk fs m body errs))"
  shows "\<exists>new. changes r = changes st @ new \<and> list_all Q new"
  using assms
proof (induction cs i fs st rule: chunks_loop.induct)
  case (1 cs i fs st)
  show ?case
  proof (cases "i < length cs")
    case False
    with "1.prems"(1) show ?thesis by (simp add: chunks_loop.simps [of cs i])
  next
    case True
    note lt = this
    show ?thesis
    proof (cases "match_location (cs ! 0)")
      case None
      with lt "1.prems"(1) "1.IH"(1) [OF lt None _ "1.prems"(2)] show ?thesis
        by (simp add: chunks_loop.simps [of cs i])
    next
      case (Some m)
      show ?thesis
      proof (cases "i + 1 < length cs")
        case False
        with lt Some "1.prems"(1) show ?thesis by (simp add: chunks_loop.simps [of cs i])
      next
        case True
        let ?st = "add_change fs m (cs ! (i + 1)) st"
        from lt Some True "1.prems"(1) have "chunks_loop cs (i + 2) fs ?st = Inr r"
          by (simp add: chunks_loop.simps [of cs i])
        from "1.IH"(2) [OF lt Some True this "1.prems"(2)]
        obtain new where n: "changes r = changes ?st @ new" and q: "list_all Q new"
          by blast
        from n have "changes r =
            changes st @ (fst (read_hunk fs m (cs ! (i + 1)) (errors st)) # new)"
          by (simp add: add_change_changes)
        moreover from q "1.prems"(2) [of m "cs ! (i + 1)" "errors st"]
        have "list_all Q (fst (read_hunk fs m (cs ! (i + 1)) (errors st)) # new)"
          by simp
        ultimately show ?thesis by blast
      qed
    qed
  qed
qed


lemma chunks_loop_all:
  assumes "chunks_loop cs i fs st = Inr r"
    and "\<forall>c\<in>set (changes st). Q c"
    and "\<And>m body errs. Q (fst (read_hunk fs m body errs))"
  shows "\<forall>c\<in>set (changes r). Q c"
proof -
  from chunks_loop_appends [where Q = Q, OF assms(1) assms(3)]
  obtain new where "changes r = changes st @ new" and "list_all Q new"
    by blast
  with assms(2) show ?thesis by (auto simp: list_all_iff)
qed

lemma file_body_cases:
  assumes "file_body fileDiff st = Inr r"
  shows "r = st\<lparr>errors := errors st @ [''Error parsing file names'']\<rparr> \<or>
         (\<exists>cs a b. chunks_loop cs 0 (classify a b) st = Inr r)"
proof (cases "skip_header (truthy (split_str [NL] fileDiff))")
  case (Inl e)
  with assms show ?thesis by (simp add: file_body_def)
next
  case (Inr lines0)
  show ?thesis
  proof (cases lines0)
    case Nil
    with Inr assms show ?thesis by (simp add: file_body_def read_names_def)
  next
    case (Cons l1 lines1)
    note c1 = this
    show ?thesis
    proof (cases lines1)
      case Nil
      with Inr c1 assms show ?thesis by (simp add: file_body_def read_names_def)
    next
      case (Cons l2 lines2)
      with Inr c1 assms
      have "chunks_loop (truthy (split_chunks (join lines2))) 0
              (classify (remove_first ''--- a/'' l1) (remove_first ''+++ b/'' l2)) st = Inr r"
        by (simp add: file_body_def read_names_def)
      then show ?thesis by blast
    qed
  qed
qed

lemma file_body_all:
  assumes "file_body fileDiff st = Inr r"
    and "\<forall>c\<in>set (changes st). Q c"
    and "\<And>a b m body errs. Q (fst (read_hunk (classify a b) m body errs))"
  shows "\<forall>c\<in>set (changes r). Q c"
proof -
  from file_body_cases [OF assms(1)]
  consider "r = st\<lparr>errors := errors st @ [''Error parsing file names'']\<rparr>"
    | cs a b where "chunks_loop cs 0 (classify a b) st = Inr r"
    by blast
  then show ?thesis
  proof cases
    case 1
    with assms(2) show ?thesis by simp
  next
    case 2
    from chunks_loop_all [where Q = Q, OF 2 assms(2) assms(3)] show ?thesis .
  qed
qed

lemma files_loop_all:
  assumes "files_loop fds st = Inr r"
    and "\<forall>c\<in>set (changes st). Q c"
    and "\<And>a b m body errs. Q (fst (read_hunk (classify a b) m body errs))"
  shows "\<forall>c\<in>set (changes r). Q c"
  using assms(1,2)
proof (induction fds arbitrary: st)
  case Nil
  then show ?case by simp
next
  case (Cons fd fds)
  from Cons.prems(1) obtain st' where fb: "file_body fd st = Inr st'"
    and fl: "files_loop fds st' = Inr r"
    by (auto split: sum.splits)
  from file_body_all [where Q = Q, OF fb Cons.prems(2) assms(3)]
  have "\<forall>c\<in>set (changes st'). Q c" .
  from Cons.IH [OF fl this] show ?case .
qed

lemma getChanges_all:
  assumes "getChanges diffOut = Inr r"
    and "\<And>a b m body errs. Q (fst (read_hunk (classify a b) m body errs))"
  shows "\<forall>c\<in>set (changes r). Q c"
proof (cases "diffOut = []")
  case True
  with assms(1) show ?thesis by (auto simp: getChanges_def)
next
  case False
  with assms(1) have "files_loop (truthy (split_str ''diff --git'' diffOut)) \<lparr>changes = [], errors = []\<rparr> = Inr r"
    by (simp add: getChanges_def)
  from files_loop_all [where Q = Q, OF this _ assms(2)] show ?thesis by simp
qed

lemma fragment_line_count:
  "map_option (\<lambda>f. f\<lparr>content := []\<rparr>) x = y \<Longrightarrow> map_option line_count x = map_option line_count y"
  by (cases x) auto

lemma fragment_None:
  "map_option (\<lambda>f. f\<lparr>content := []\<rparr>) x = y \<Longrightarrow> (x = None) = (y = None)"
  by (cases x) auto

lemma classify_exclusive:
  "\<not> (isAddedFile (classify a b) \<and> isDeletedFile (classify a b))"
  by (simp add: classify_def)

lemma count_or_1_pos: "1 \<le> count_or_1 g"
  by (simp add: count_or_1_def split: option.splits)

section \<open>Lemmas about splitting a well-formed diff text\<close>

subsection \<open>Prefixes and occurrences\<close>




lemma startsWith_Nil: "startsWith [] p = (p = [])"
  by (cases p) auto

subsection \<open>Splitting on a string\<close>






subsection \<open>The location pattern on a printed location\<close>



lemma not_digit_space [simp]: "\<not> is_digit (CHR '' '')" "\<not> is_digit (CHR '','')"
  by (simp_all add: is_digit_def)






subsection \<open>Splitting on the hunk header\<close>

















subsection \<open>Counting the records\<close>























section \<open>Properties\<close>




text \<open>
  Claim C2. A file section whose old file is \<open>/dev/null\<close> should give records without
  \<open>fromFile\<close>, and one whose new file is \<open>/dev/null\<close> records without \<open>toFile\<close>. The header
  line of an added file in the output of \<open>git diff\<close> is \<open>--- /dev/null\<close>. The source removes
  \<open>--- a/\<close> from it, which does not occur, so the name that it compares with \<open>/dev/null\<close>
  is the whole line: the file is not classified as added and the record has a \<open>fromFile\<close>
  of that name. In the same way the header \<open>+++ /dev/null\<close> of a deleted file is kept as
  the new name, and the record has a \<open>toFile\<close>.
\<close>

theorem C2_sentinel_header_not_recognised:
  "getChanges (text_of [''diff --git a/n b/n'', ''new file mode 100644'', ''--- /dev/null'',
      ''+++ b/n'', ''@@ -0,0 +1 @@'', ''+hello'']) =
     Inr \<lparr>changes =
       [\<lparr>fromFile = Some \<lparr>name = ''--- /dev/null'', start_line = 0, line_count = 1,
                            content = [NL]\<rparr>,
         toFile = Some \<lparr>name = ''n'', start_line = 1, line_count = 1,
                          content = [NL] @ ''hello'' @ [NL]\<rparr>\<rparr>],
       errors = []\<rparr> \<and>
   getChanges (text_of [''diff --git a/o b/o'', ''deleted file mode 100644'', ''--- a/o'',
      ''+++ /dev/null'', ''@@ -1 +0,0 @@'', ''-hello'']) =
     Inr \<lparr>changes =
       [\<lparr>fromFile = Some \<lparr>name = ''o'', start_line = 1, line_count = 1,
                            content = [NL] @ ''hello'' @ [NL]\<rparr>,
         toFile = Some \<lparr>name = ''+++ /dev/null'', start_line = 0, line_count = 1,
                          content = [NL]\<rparr>\<rparr>],
       errors = []\<rparr>"
  by code_simp

text \<open>
  Claim C3. A file segment without its header lines should be skipped with an error
  message. In this diff the first segment (a change of mode) has no line that starts with
  \<open>---\<close>: the loop that skips the lines before the header runs past the last line and the
  call throws, so the second segment, which is well formed, is never read.
\<close>

theorem C3_missing_old_header_throws:
  "getChanges (text_of [''diff --git a/f b/f'', ''old mode 100644'', ''new mode 100755'',
      ''diff --git a/g b/g'', ''--- a/g'', ''+++ b/g'', ''@@ -1 +1 @@'', ''-a'', ''+b'']) =
   Inl TypeError"
  by code_simp




text \<open>
  Claim C5. For a hunk with the body lines \<open>" ctx"\<close>, \<open>"-old"\<close>, \<open>"+new"\<close> the contents
  should be exactly \<open>"ctx\nold\n"\<close> and \<open>"ctx\nnew\n"\<close>. In the diff text the header line of
  the hunk ends with a newline. The split on the header pattern leaves that newline at
  the start of the body chunk, so the first of the lines that the loop reads is the empty
  string; it is read as a context line, and both contents start with a newline of their
  own: they are \<open>"\nctx\nold\n"\<close> and \<open>"\nctx\nnew\n"\<close>.
\<close>

theorem C5_contents_start_with_newline:
  "getChanges (text_of [''diff --git a/f b/f'', ''--- a/f'', ''+++ b/f'', ''@@ -1,2 +1,2 @@'',
      '' ctx'', ''-old'', ''+new'']) =
   Inr \<lparr>changes =
     [\<lparr>fromFile = Some \<lparr>name = ''f'', start_line = 1, line_count = 2,
                          content = [NL] @ ''ctx'' @ [NL] @ ''old'' @ [NL]\<rparr>,
       toFile = Some \<lparr>name = ''f'', start_line = 1, line_count = 2,
                        content = [NL] @ ''ctx'' @ [NL] @ ''new'' @ [NL]\<rparr>\<rparr>],
     errors = []\<rparr>"
  by code_simp

text \<open>
  The loop over the lines is not where the newline comes from: on the three lines alone
  it gives the two contents that are expected.
\<close>

lemma lines_loop_three_lines:
  "lines_loop ['' ctx'', ''-old'', ''+new'']
      (Some \<lparr>name = a, start_line = i, line_count = n, content = []\<rparr>)
      (Some \<lparr>name = b, start_line = j, line_count = k, content = []\<rparr>) errs =
   (Some \<lparr>name = a, start_line = i, line_count = n, content = ''ctx'' @ [NL] @ ''old'' @ [NL]\<rparr>,
    Some \<lparr>name = b, start_line = j, line_count = k, content = ''ctx'' @ [NL] @ ''new'' @ [NL]\<rparr>,
    errs)"
  by simp

text \<open>
  Claim C6. A hunk with an empty body should give a record with empty contents. When the
  hunk is the last one of its section, the empty chunk after the header is dropped by the
  filter on the chunks, so the body of the hunk is \<open>undefined\<close> and the call of \<open>split\<close> on
  it throws. When another header follows on the next line, the chunk is the newline
  between the two headers; it is read as two empty context lines, and the contents of the
  record are two newlines.
\<close>

theorem C6_empty_body_throws:
  "getChanges (text_of [''diff --git a/f b/f'', ''--- a/f'', ''+++ b/f'', ''@@ -3,2 +3,2 @@'']) =
     Inl TypeError \<and>
   getChanges (text_of [''diff --git a/f b/f'', ''--- a/f'', ''+++ b/f'', ''@@ -1 +1 @@'',
      ''@@ -3 +3 @@'', ''+x'']) =
     Inr \<lparr>changes =
       [\<lparr>fromFile = Some \<lparr>name = ''f'', start_line = 1, line_count = 1, content = [NL, NL]\<rparr>,
         toFile = Some \<lparr>name = ''f'', start_line = 1, line_count = 1, content = [NL, NL]\<rparr>\<rparr>,
        \<lparr>fromFile = Some \<lparr>name = ''f'', start_line = 1, line_count = 1, content = [NL]\<rparr>,
         toFile = Some \<lparr>name = ''f'', start_line = 1, line_count = 1,
                          content = [NL] @ ''x'' @ [NL]\<rparr>\<rparr>],
       errors = []\<rparr>"
  by code_simp

text \<open>
  Claim C7. No record of the returned collection lacks both \<open>fromFile\<close> and \<open>toFile\<close>:
  a file is never classified as both added and deleted.
\<close>

theorem C7_some_fragment_present:
  assumes "getChanges diffOut = Inr r" and "c \<in> set (changes r)"
  shows "\<not> (fromFile c = None \<and> toFile c = None) \<and>
         \<not> (isAddedFile (classify a b) \<and> isDeletedFile (classify a b))"
proof -
  have "\<not> (fromFile (fst (read_hunk (classify a b) m body errs)) = None \<and>
           toFile (fst (read_hunk (classify a b) m body errs)) = None)" for a b m body errs
  proof -
    obtain c errs' where rh: "read_hunk (classify a b) m body errs = (c, errs')"
      by (cases "read_hunk (classify a b) m body errs")
    have "\<not> (fromFile c = None \<and> toFile c = None)"
    proof (cases "isAddedFile (classify a b)")
      case True
      with classify_exclusive [of a b] have "\<not> isDeletedFile (classify a b)" by blast
      then have "new_toFile (classify a b) m \<noteq> None" by (simp add: new_toFile_def)
      with fragment_None [OF read_hunk_fragments(2) [OF rh]] show ?thesis by simp
    next
      case False
      then have "new_fromFile (classify a b) m \<noteq> None" by (simp add: new_fromFile_def)
      with fragment_None [OF read_hunk_fragments(1) [OF rh]] show ?thesis by simp
    qed
    with rh show ?thesis by simp
  qed
  from getChanges_all [where Q = "\<lambda>c. \<not> (fromFile c = None \<and> toFile c = None)",
      OF assms(1) this] assms(2) classify_exclusive [of a b]
  show ?thesis by blast
qed

theorem C7_some_fragment_present_witness:
  "getChanges (text_of [''diff --git a/n b/n'', ''--- a//dev/null'', ''+++ b//dev/null'',
      ''@@ -0,0 +1 @@'', ''+x'']) =
     Inr \<lparr>changes = [\<lparr>fromFile = None,
                        toFile = Some \<lparr>name = ''/dev/null'', start_line = 1, line_count = 1,
                                         content = ''x'' @ [NL]\<rparr>\<rparr>],
          errors = [''Error: fromFile is undefined'']\<rparr> \<and>
   \<not> (fromFile \<lparr>fromFile = None,
              toFile = Some \<lparr>name = ''/dev/null'', start_line = 1, line_count = 1,
                               content = ''x'' @ [NL]\<rparr>\<rparr> = None \<and>
      toFile \<lparr>fromFile = None,
            toFile = Some \<lparr>name = ''/dev/null'', start_line = 1, line_count = 1,
                             content = ''x'' @ [NL]\<rparr>\<rparr> = None) \<and>
   \<not> (isAddedFile (classify ''/dev/null'' ''/dev/null'') \<and>
      isDeletedFile (classify ''/dev/null'' ''/dev/null''))"
proof -
  let ?c = "\<lparr>fromFile = None,
             toFile = Some \<lparr>name = ''/dev/null'', start_line = 1, line_count = 1,
                              content = ''x'' @ [NL]\<rparr>\<rparr>"
  let ?r = "\<lparr>changes = [?c], errors = [''Error: fromFile is undefined'']\<rparr>"
  have g: "getChanges (text_of [''diff --git a/n b/n'', ''--- a//dev/null'', ''+++ b//dev/null'',
      ''@@ -0,0 +1 @@'', ''+x'']) = Inr ?r"
    by code_simp
  have m: "?c \<in> set (changes ?r)" by simp
  from C7_some_fragment_present [OF g m, of "''/dev/null''" "''/dev/null''"] g
  show ?thesis by blast
qed



text \<open>
  Claim C9. For the empty diff text \<open>getChanges\<close> returns the empty collection, without
  an exception and without any error message.
\<close>

theorem C9_empty_input: "getChanges [] = Inr \<lparr>changes = [], errors = []\<rparr>"
  by (simp add: getChanges_def)

text \<open>
  Claim C10. Every fragment of a returned record has a line count of at least 1: a count
  of 0 in the header becomes 1, as a count that is left out does.
\<close>

theorem C10_line_count_positive:
  assumes "getChanges diffOut = Inr r" and "c \<in> set (changes r)"
  shows "(case fromFile c of None \<Rightarrow> True | Some f \<Rightarrow> 1 \<le> line_count f) \<and>
         (case toFile c of None \<Rightarrow> True | Some t \<Rightarrow> 1 \<le> line_count t) \<and>
         count_or_1 (Some ''0'') = 1 \<and> count_or_1 None = 1"
proof -
  let ?Q = "\<lambda>c. (case fromFile c of None \<Rightarrow> True | Some f \<Rightarrow> 1 \<le> line_count f) \<and>
         (case toFile c of None \<Rightarrow> True | Some t \<Rightarrow> 1 \<le> line_count t)"
  have "?Q (fst (read_hunk (classify a b) m body errs))" for a b m body errs
  proof -
    obtain c errs' where rh: "read_hunk (classify a b) m body errs = (c, errs')"
      by (cases "read_hunk (classify a b) m body errs")
    have "map_option line_count (fromFile c) = map_option line_count (new_fromFile (classify a b) m)"
      and "map_option line_count (toFile c) = map_option line_count (new_toFile (classify a b) m)"
      by (rule fragment_line_count [OF read_hunk_fragments(1) [OF rh]],
          rule fragment_line_count [OF read_hunk_fragments(2) [OF rh]])
    with count_or_1_pos [of "g2 m"] count_or_1_pos [of "g4 m"]
    have "(case fromFile c of None \<Rightarrow> True | Some f \<Rightarrow> 1 \<le> line_count f)"
      and "(case toFile c of None \<Rightarrow> True | Some t \<Rightarrow> 1 \<le> line_count t)"
      by (auto simp: new_fromFile_def new_toFile_def split: if_splits option.splits)
    with rh show ?thesis by simp
  qed
  from getChanges_all [where Q = ?Q, OF assms(1) this] assms(2)
  have "?Q c" by blast
  moreover have "count_or_1 (Some ''0'') = 1 \<and> count_or_1 None = 1"
    by (simp add: count_or_1_def Number_def digit_val_def)
  ultimately show ?thesis by simp
qed

theorem C10_line_count_positive_witness:
  "getChanges (text_of [''diff --git a/f b/f'', ''--- a/f'', ''+++ b/f'',
      ''@@ -10,0 +11,2 @@'', ''+p'', ''+q'']) =
     Inr \<lparr>changes =
           [\<lparr>fromFile = Some \<lparr>name = ''f'', start_line = 10, line_count = 1,
                                content = [NL]\<rparr>,
             toFile = Some \<lparr>name = ''f'', start_line = 11, line_count = 2,
                              content = [NL] @ ''p'' @ [NL] @ ''q'' @ [NL]\<rparr>\<rparr>],
          errors = []\<rparr> \<and>
   1 \<le> line_count \<lparr>name = ''f'', start_line = 10, line_count = 1, content = [NL]\<rparr> \<and>
   1 \<le> line_count \<lparr>name = ''f'', start_line = 11, line_count = 2,
                      content = [NL] @ ''p'' @ [NL] @ ''q'' @ [NL]\<rparr> \<and>
   count_or_1 (Some ''0'') = 1 \<and> count_or_1 None = 1"
proof -
  let ?c = "\<lparr>fromFile = Some \<lparr>name = ''f'', start_line = 10, line_count = 1,
                                content = [NL]\<rparr>,
             toFile = Some \<lparr>name = ''f'', start_line = 11, line_count = 2,
                              content = [NL] @ ''p'' @ [NL] @ ''q'' @ [NL]\<rparr>\<rparr>"
  let ?r = "\<lparr>changes = [?c], errors = []\<rparr>"
  have g: "getChanges (text_of [''diff --git a/f b/f'', ''--- a/f'', ''+++ b/f'',
      ''@@ -10,0 +11,2 @@'', ''+p'', ''+q'']) = Inr ?r"
    by code_simp
  have m: "?c \<in> set (changes ?r)" by simp
  from C10_line_count_positive [OF g m] have "count_or_1 (Some ''0'') = 1 \<and> count_or_1 None = 1"
    and "1 \<le> line_count \<lparr>name = ''f'', start_line = 10, line_count = 1, content = [NL]\<rparr>"
    and "1 \<le> line_count \<lparr>name = ''f'', start_line = 11, line_count = 2,
                      content = [NL] @ ''p'' @ [NL] @ ''q'' @ [NL]\<rparr>"
    by simp_all
  with g show ?thesis by blast
qed

end
